theory Spec2Isabelle
  imports Main "HOL-Library.Sublist"
begin

section \<open>The conversion cache step of the DynamiCrafter notebook\<close>

text \<open>
  The notebook defines one function with its own control flow:
  \<^verbatim>\<open>
  def convert(model: torch.nn.Module, xml_path: str, example_input, input_shape=None):
      xml_path = Path(xml_path)
      if not xml_path.exists():
          xml_path.parent.mkdir(parents=True, exist_ok=True)
          with torch.no_grad():
              if not input_shape:
                  converted_model = ov.convert_model(model, example_input=example_input)
              else:
                  converted_model = ov.convert_model(model, example_input=example_input, input=input_shape)
          ov.save_model(converted_model, xml_path, compress_to_fp16=False)

          # cleanup memory
          torch._C._jit_clear_class_registry()
          torch.jit._recursive.concrete_type_store = torch.jit._recursive.ConcreteTypeStore()
          torch.jit._state._clear_class_state()
  \<close>
  Everything it touches is process or machine state: the file system, the gradient
  mode of torch, the class registries of torch.jit. The model threads that state
  through the function as a record and returns, next to the new state, the exception
  that left the function (\<open>None\<close> when it returned normally).
\<close>

subsection \<open>Python values and truthiness\<close>

datatype pyval =
    PyNone
  | PyBool bool
  | PyInt int
  | PyStr string
  | PyList "pyval list"
  | PyTuple "pyval list"

text \<open>The truth value Python's \<^verbatim>\<open>not\<close> tests: \<^verbatim>\<open>None\<close>, \<^verbatim>\<open>False\<close>, zero and
  empty containers are false.\<close>

fun truthy :: "pyval \<Rightarrow> bool" where
  "truthy PyNone = False"
| "truthy (PyBool b) = b"
| "truthy (PyInt n) = (n \<noteq> 0)"
| "truthy (PyStr s) = (s \<noteq> [])"
| "truthy (PyList xs) = (xs \<noteq> [])"
| "truthy (PyTuple xs) = (xs \<noteq> [])"

subsection \<open>The file system\<close>

text \<open>A path is the list of its components, outermost first; the empty list is the
  directory that relative paths start from (\<^verbatim>\<open>Path(".")\<close>), which always exists. Paths
  are compared as they are spelled: a component \<^verbatim>\<open>..\<close> is a name like any other here, so
  what is said about other paths than the destination is said for destinations spelled
  without it.\<close>

type_synonym path = "string list"

text \<open>What \<^verbatim>\<open>ov.save_model\<close> writes is two files: the \<^verbatim>\<open>.xml\<close> with the intermediate
  representation and, beside it, the \<^verbatim>\<open>.bin\<close> with its weights, each under the compression
  flag it was written with; any other file is a blob.\<close>

datatype 'i content = Serialized 'i bool | Weights 'i bool | Blob string

datatype 'i node = File "'i content" | Dir

text \<open>The operating system can refuse to make a directory or to open a file for reasons
  the tree does not show (permissions, a read-only medium, an over-long name, no space).
  Those decisions are part of the file system, fixed for the run and arbitrary.\<close>

datatype os_op = Mkdir | Write

datatype os_fault = EACCES | EROFS | ENAMETOOLONG | ENOSPC

record 'i filesystem =
  nodes :: "path \<Rightarrow> 'i node option"
  refused :: "os_op \<Rightarrow> path \<Rightarrow> os_fault option"

datatype os_error = FileExistsError | FileNotFoundError | NotADirectoryError | Fault os_fault

definition lookup :: "'i filesystem \<Rightarrow> path \<Rightarrow> 'i node option" where
  "lookup fs p = (if p = [] then Some Dir else nodes fs p)"

text \<open>\<^verbatim>\<open>Path.exists()\<close>, where it answers: true of a file and of a directory alike. (Where
  \<^verbatim>\<open>stat\<close> itself fails for another reason than a missing entry, \<^verbatim>\<open>exists()\<close> raises and
  \<open>convert\<close> ends at its first line; such calls are neither a cache hit nor a cache miss
  and are not described here.)\<close>

definition path_exists :: "'i filesystem \<Rightarrow> path \<Rightarrow> bool" where
  "path_exists fs p = (lookup fs p \<noteq> None)"

definition is_dir :: "'i filesystem \<Rightarrow> path \<Rightarrow> bool" where
  "is_dir fs p = (lookup fs p = Some Dir)"

definition is_file :: "'i filesystem \<Rightarrow> path \<Rightarrow> bool" where
  "is_file fs p = (case lookup fs p of Some (File c) \<Rightarrow> True | _ \<Rightarrow> False)"

text \<open>\<^verbatim>\<open>Path.parent\<close>; the parent of the anchor is the anchor itself.\<close>

definition parent :: "path \<Rightarrow> path" where
  "parent p = butlast p"

text \<open>A path is blocked when the path itself or one of the directories above it is a
  regular file: no directory can be made there.\<close>

definition blocked :: "'i filesystem \<Rightarrow> path \<Rightarrow> bool" where
  "blocked fs p = list_ex (is_file fs) (prefixes p)"

definition put :: "'i filesystem \<Rightarrow> path \<Rightarrow> 'i node \<Rightarrow> 'i filesystem" where
  "put fs p n = fs\<lparr>nodes := (nodes fs)(p \<mapsto> n)\<rparr>"

text \<open>\<^verbatim>\<open>os.mkdir\<close>: one directory. The system may refuse; what is there already cannot be
  made; a regular file anywhere above gives \<^verbatim>\<open>ENOTDIR\<close>, a missing parent \<^verbatim>\<open>ENOENT\<close>.\<close>

definition os_mkdir :: "'i filesystem \<Rightarrow> path \<Rightarrow> os_error + 'i filesystem" where
  "os_mkdir fs p =
     (case refused fs Mkdir p of
        Some f \<Rightarrow> Inl (Fault f)
      | None \<Rightarrow>
          (if path_exists fs p then Inl FileExistsError
           else if blocked fs (parent p) then Inl NotADirectoryError
           else (case lookup fs (parent p) of
                   None \<Rightarrow> Inl FileNotFoundError
                 | Some (File c) \<Rightarrow> Inl NotADirectoryError
                 | Some Dir \<Rightarrow> Inr (put fs p Dir))))"

text \<open>
  \<^verbatim>\<open>Path.mkdir(parents, exist_ok)\<close> as pathlib writes it:
  \<^verbatim>\<open>
  try:
      os.mkdir(self, mode)
  except FileNotFoundError:
      if not parents or self.parent == self:
          raise
      self.parent.mkdir(parents=True, exist_ok=True)
      self.mkdir(mode, parents=False, exist_ok=exist_ok)
  except OSError:
      if not exist_ok or not self.is_dir():
          raise
  \<close>
  The result carries the file system also when an error is raised.
\<close>

function mkdir :: "'i filesystem \<Rightarrow> path \<Rightarrow> bool \<Rightarrow> bool \<Rightarrow> os_error option \<times> 'i filesystem" where
  "mkdir fs p parents exist_ok =
     (case os_mkdir fs p of
        Inr fs' \<Rightarrow> (None, fs')
      | Inl FileNotFoundError \<Rightarrow>
          if \<not> parents \<or> parent p = p then (Some FileNotFoundError, fs)
          else (case mkdir fs (parent p) True True of
                  (Some e, fs') \<Rightarrow> (Some e, fs')
                | (None, fs') \<Rightarrow> mkdir fs' p False exist_ok)
      | Inl e \<Rightarrow>
          if \<not> exist_ok \<or> \<not> is_dir fs p then (Some e, fs) else (None, fs))"
  by pat_completeness auto
termination
proof (relation "measure (\<lambda>(fs, p, parents, exist_ok). if parents then 2 * length p + 1 else 0)")
  show "wf (measure (\<lambda>(fs :: 'i filesystem, p :: path, parents, exist_ok :: bool).
           if parents then 2 * length p + 1 else 0))"
    by simp
next
  fix fs :: "'i filesystem" and p :: path and parents exist_ok :: bool
  assume "\<not> (\<not> parents \<or> parent p = p)"
  then have "parents" and "p \<noteq> []"
    by (auto simp: parent_def)
  then show "((fs, parent p, True, True), (fs, p, parents, exist_ok))
      \<in> measure (\<lambda>(fs, p, parents, exist_ok). if parents then 2 * length p + 1 else 0)"
    by (simp add: parent_def)
next
  fix fs fs' :: "'i filesystem" and p :: path and parents exist_ok :: bool
  assume "\<not> (\<not> parents \<or> parent p = p)"
  then have "parents" by simp
  then show "((fs', p, False, exist_ok), (fs, p, parents, exist_ok))
      \<in> measure (\<lambda>(fs, p, parents, exist_ok). if parents then 2 * length p + 1 else 0)"
    by simp
qed

declare mkdir.simps [simp del]

subsection \<open>Process state and the external routines\<close>

text \<open>The three class registries of torch.jit that the cleanup resets.\<close>

record jit_state =
  class_registry :: "string list"
  concrete_type_store :: "string list"
  class_state :: "string list"

definition fresh_jit :: jit_state where
  "fresh_jit = \<lparr>class_registry = [], concrete_type_store = [], class_state = []\<rparr>"

definition jit_size :: "jit_state \<Rightarrow> nat" where
  "jit_size j = length (class_registry j) + length (concrete_type_store j) + length (class_state j)"

text \<open>One entry per invocation of \<^verbatim>\<open>ov.convert_model\<close>: its arguments (\<open>None\<close> when no
  \<^verbatim>\<open>input=\<close> was passed) and the gradient mode it ran under.\<close>

record ('m, 'e) convert_model_call =
  call_model :: 'm
  call_example_input :: 'e
  call_input :: "pyval option"
  call_grad_enabled :: bool

record ('m, 'e, 'i) world =
  files :: "'i filesystem"
  grad_enabled :: bool
  jit :: jit_state
  convert_model_calls :: "('m, 'e) convert_model_call list"

text \<open>
  \<^verbatim>\<open>ov.convert_model\<close> is not code of the notebook. It is a parameter: from the module,
  the example input, the optional \<^verbatim>\<open>input\<close> and the registries it finds, it raises
  (\<open>Inl\<close>) or returns an intermediate representation (\<open>Inr\<close>), and leaves the registries
  in whatever state it likes.
\<close>

type_synonym ('m, 'e, 'i, 'x) converter =
  "'m \<Rightarrow> 'e \<Rightarrow> pyval option \<Rightarrow> jit_state \<Rightarrow> ('x + 'i) \<times> jit_state"

definition ov_convert_model ::
  "('m, 'e, 'i, 'x) converter \<Rightarrow> 'm \<Rightarrow> 'e \<Rightarrow> pyval option \<Rightarrow> ('m, 'e, 'i) world
    \<Rightarrow> ('x + 'i) \<times> ('m, 'e, 'i) world" where
  "ov_convert_model cm model example_input inp w =
     (case cm model example_input inp (jit w) of
        (r, j) \<Rightarrow>
          (r, w\<lparr>jit := j,
                convert_model_calls := convert_model_calls w @
                  [\<lparr>call_model = model, call_example_input = example_input,
                    call_input = inp, call_grad_enabled = grad_enabled w\<rparr>]\<rparr>))"

text \<open>\<^verbatim>\<open>with torch.no_grad():\<close> switches gradient tracking off for the body and restores
  the previous mode on the way out, also when the body raises.\<close>

definition with_no_grad ::
  "(('m, 'e, 'i) world \<Rightarrow> 'a \<times> ('m, 'e, 'i) world) \<Rightarrow> ('m, 'e, 'i) world \<Rightarrow> 'a \<times> ('m, 'e, 'i) world" where
  "with_no_grad body w =
     (case body (w\<lparr>grad_enabled := False\<rparr>) of
        (r, w') \<Rightarrow> (r, w'\<lparr>grad_enabled := grad_enabled w\<rparr>))"

text \<open>
  \<^verbatim>\<open>ov.save_model(model, path, compress_to_fp16)\<close> is not code of the notebook either.
  It insists on a destination that ends in \<^verbatim>\<open>.xml\<close>, and writes two files: the weights at
  the same path with \<^verbatim>\<open>.bin\<close> for \<^verbatim>\<open>.xml\<close>, and the representation at the destination,
  each over a regular file that may be there. It raises when the destination has another
  ending, when the system refuses to open one of the two files, or when a directory is
  in the place of one; then nothing is written.
\<close>

datatype save_error = NoXmlExtension | CannotOpen path

definition has_xml_extension :: "path \<Rightarrow> bool" where
  "has_xml_extension p = (p \<noteq> [] \<and> suffix ''.xml'' (last p))"

definition bin_path :: "path \<Rightarrow> path" where
  "bin_path p = butlast p @ [take (length (last p) - 4) (last p) @ ''.bin'']"

definition cannot_open :: "'i filesystem \<Rightarrow> path \<Rightarrow> bool" where
  "cannot_open fs p = (refused fs Write p \<noteq> None \<or> is_dir fs p)"

definition save_refusal :: "'i filesystem \<Rightarrow> path \<Rightarrow> save_error option" where
  "save_refusal fs p =
     (if \<not> has_xml_extension p then Some NoXmlExtension
      else if cannot_open fs (bin_path p) then Some (CannotOpen (bin_path p))
      else if cannot_open fs p then Some (CannotOpen p)
      else None)"

definition ov_save_model ::
  "'i \<Rightarrow> path \<Rightarrow> bool \<Rightarrow> ('m, 'e, 'i) world \<Rightarrow> save_error option \<times> ('m, 'e, 'i) world" where
  "ov_save_model converted_model p compress_to_fp16 w =
     (case save_refusal (files w) p of
        Some se \<Rightarrow> (Some se, w)
      | None \<Rightarrow>
          (None,
           w\<lparr>files :=
               put (put (files w) (bin_path p) (File (Weights converted_model compress_to_fp16)))
                 p (File (Serialized converted_model compress_to_fp16))\<rparr>))"

definition jit_clear_class_registry :: "('m, 'e, 'i) world \<Rightarrow> ('m, 'e, 'i) world" where
  "jit_clear_class_registry w = w\<lparr>jit := (jit w)\<lparr>class_registry := []\<rparr>\<rparr>"

definition reset_concrete_type_store :: "('m, 'e, 'i) world \<Rightarrow> ('m, 'e, 'i) world" where
  "reset_concrete_type_store w = w\<lparr>jit := (jit w)\<lparr>concrete_type_store := []\<rparr>\<rparr>"

definition clear_class_state :: "('m, 'e, 'i) world \<Rightarrow> ('m, 'e, 'i) world" where
  "clear_class_state w = w\<lparr>jit := (jit w)\<lparr>class_state := []\<rparr>\<rparr>"

subsection \<open>convert\<close>

datatype 'x raised = OSError os_error | Raised 'x | SaveError save_error

definition convert ::
  "('m, 'e, 'i, 'x) converter \<Rightarrow> 'm \<Rightarrow> path \<Rightarrow> 'e \<Rightarrow> pyval \<Rightarrow> ('m, 'e, 'i) world
    \<Rightarrow> 'x raised option \<times> ('m, 'e, 'i) world" where
  "convert cm model xml_path example_input input_shape w =
     (if \<not> path_exists (files w) xml_path then
        (case mkdir (files w) (parent xml_path) True True of
           (Some e, fs1) \<Rightarrow> (Some (OSError e), w\<lparr>files := fs1\<rparr>)
         | (None, fs1) \<Rightarrow>
             (case with_no_grad
                     (\<lambda>s. if \<not> truthy input_shape
                          then ov_convert_model cm model example_input None s
                          else ov_convert_model cm model example_input (Some input_shape) s)
                     (w\<lparr>files := fs1\<rparr>) of
                (Inl x, w2) \<Rightarrow> (Some (Raised x), w2)
              | (Inr converted_model, w2) \<Rightarrow>
                  (case ov_save_model converted_model xml_path False w2 of
                     (Some se, w3) \<Rightarrow> (Some (SaveError se), w3)
                   | (None, w3) \<Rightarrow>
                       (None,
                        clear_class_state
                          (reset_concrete_type_store (jit_clear_class_registry w3))))))
      else (None, w))"

text \<open>The notebook calls \<open>convert\<close> several times in a row, each call on the state the
  previous one left (also after a call that raised, when the cell is run again).\<close>

record ('m, 'e) conversion_request =
  req_model :: 'm
  req_path :: path
  req_example_input :: 'e
  req_input_shape :: pyval

definition convert_request ::
  "('m, 'e, 'i, 'x) converter \<Rightarrow> ('m, 'e) conversion_request \<Rightarrow> ('m, 'e, 'i) world
    \<Rightarrow> 'x raised option \<times> ('m, 'e, 'i) world" where
  "convert_request cm r w =
     convert cm (req_model r) (req_path r) (req_example_input r) (req_input_shape r) w"

fun convert_all ::
  "('m, 'e, 'i, 'x) converter \<Rightarrow> ('m, 'e) conversion_request list \<Rightarrow> ('m, 'e, 'i) world
    \<Rightarrow> ('m, 'e, 'i) world" where
  "convert_all cm [] w = w"
| "convert_all cm (r # rs) w = convert_all cm rs (snd (convert_request cm r w))"

fun all_returned ::
  "('m, 'e, 'i, 'x) converter \<Rightarrow> ('m, 'e) conversion_request list \<Rightarrow> ('m, 'e, 'i) world \<Rightarrow> bool" where
  "all_returned cm [] w = True"
| "all_returned cm (r # rs) w =
     (fst (convert_request cm r w) = None \<and> all_returned cm rs (snd (convert_request cm r w)))"

subsection \<open>File systems the step can run on\<close>

text \<open>In a file system, whatever exists lies in a directory.\<close>

definition well_formed :: "'i filesystem \<Rightarrow> bool" where
  "well_formed fs = (\<forall>p. path_exists fs p \<longrightarrow> is_dir fs (parent p))"

subsection \<open>The notebook's calls, and stub converters\<close>

datatype notebook_module =
  CondStageModel | Embedder | EncoderFirstStage | DiffusionModel | DecoderFirstStage

text \<open>The five calls of the notebook, in its order; only the embedder passes an
  \<^verbatim>\<open>input_shape\<close>. Example inputs are kept as their source text.\<close>

definition notebook_requests :: "(notebook_module, string) conversion_request list" where
  "notebook_requests =
     [\<lparr>req_model = CondStageModel, req_path = [''models'', ''cond_stage_model.xml''],
       req_example_input = ''torch.ones([1, 77], dtype=torch.long)'', req_input_shape = PyNone\<rparr>,
      \<lparr>req_model = Embedder, req_path = [''models'', ''embedder_ir.xml''],
       req_example_input = ''torch.rand([1, 3, 767, 767], dtype=torch.float32)'',
       req_input_shape = PyList [PyInt 1, PyInt 3, PyInt (- 1), PyInt (- 1)]\<rparr>,
      \<lparr>req_model = EncoderFirstStage, req_path = [''models'', ''encode_first_stage_ir.xml''],
       req_example_input = ''torch.rand([1, 3, 256, 256], dtype=torch.float32)'',
       req_input_shape = PyNone\<rparr>,
      \<lparr>req_model = DiffusionModel, req_path = [''models'', ''model_ir.xml''],
       req_example_input = ''{xc, t, context, fs, temporal_length}'', req_input_shape = PyNone\<rparr>,
      \<lparr>req_model = DecoderFirstStage, req_path = [''models'', ''decoder_first_stage_ir.xml''],
       req_example_input = ''torch.rand([16, 4, 32, 32], dtype=torch.float32)'',
       req_input_shape = PyNone\<rparr>]"

text \<open>A converter that always returns, with a representation that names the module and
  the \<^verbatim>\<open>input\<close> it was given, and one that always raises. Both leave an entry in the
  class registry, as tracing does.\<close>

definition stub_converter ::
  "(notebook_module, string, notebook_module \<times> pyval option, string) converter" where
  "stub_converter m e inp j = (Inr (m, inp), j\<lparr>class_registry := class_registry j @ [''traced'']\<rparr>)"

definition failing_converter ::
  "(notebook_module, string, notebook_module \<times> pyval option, string) converter" where
  "failing_converter m e inp j =
     (Inl ''unsupported operator'', j\<lparr>class_registry := class_registry j @ [''traced'']\<rparr>)"

text \<open>A file system that holds the given nodes and refuses nothing.\<close>

definition permissive :: "(path \<Rightarrow> 'i node option) \<Rightarrow> 'i filesystem" where
  "permissive m = \<lparr>nodes = m, refused = (\<lambda>op p. None)\<rparr>"

definition fresh_world :: "(notebook_module, string, notebook_module \<times> pyval option) world" where
  "fresh_world =
     \<lparr>files = permissive Map.empty, grad_enabled = True, jit = fresh_jit,
      convert_model_calls = []\<rparr>"

text \<open>The state the spec's scenario ends in: \<^verbatim>\<open>models/x.xml\<close> and its weights written
  from the first module, the stub invoked once.\<close>

definition x_world :: "(notebook_module, string, notebook_module \<times> pyval option) world" where
  "x_world =
     \<lparr>files = permissive
        [[''models''] \<mapsto> Dir,
         [''models'', ''x.bin''] \<mapsto> File (Weights (CondStageModel, None) False),
         [''models'', ''x.xml''] \<mapsto> File (Serialized (CondStageModel, None) False)],
      grad_enabled = True, jit = fresh_jit,
      convert_model_calls =
        [\<lparr>call_model = CondStageModel, call_example_input = ''dummy'', call_input = None,
          call_grad_enabled = False\<rparr>]\<rparr>"

text \<open>A state in which \<^verbatim>\<open>models\<close> is a regular file, so that nothing can be created
  below it.\<close>

definition blocked_world :: "(notebook_module, string, notebook_module \<times> pyval option) world" where
  "blocked_world =
     \<lparr>files = permissive [[''models''] \<mapsto> File (Blob ''not a directory'')],
      grad_enabled = True, jit = fresh_jit, convert_model_calls = []\<rparr>"

text \<open>A state in which the system lets nothing be made or written.\<close>

definition read_only_world :: "(notebook_module, string, notebook_module \<times> pyval option) world" where
  "read_only_world =
     \<lparr>files = \<lparr>nodes = Map.empty, refused = (\<lambda>op p. Some EACCES)\<rparr>,
      grad_enabled = True, jit = fresh_jit, convert_model_calls = []\<rparr>"


section \<open>Launching the demo\<close>

text \<open>
  \<^verbatim>\<open>
  try:
      demo.queue().launch(debug=True)
  except Exception:
      demo.queue().launch(debug=True, share=True)
  \<close>
  What \<^verbatim>\<open>launch\<close> raises is decided outside the notebook: the server is a parameter
  that, from the launches made so far and the arguments of this one, returns normally
  (\<open>None\<close>) or raises. An exception is an instance of \<^verbatim>\<open>Exception\<close> or one of the
  classes Python derives from \<^verbatim>\<open>BaseException\<close> alone.
\<close>

datatype launch_exception =
  KeyboardInterrupt | SystemExit | GeneratorExit | ExceptionInstance string

fun isinstance_Exception :: "launch_exception \<Rightarrow> bool" where
  "isinstance_Exception KeyboardInterrupt = False"
| "isinstance_Exception SystemExit = False"
| "isinstance_Exception GeneratorExit = False"
| "isinstance_Exception (ExceptionInstance c) = True"

record launch_args =
  debug :: bool
  share :: "bool option"

type_synonym ui_server = "launch_args list \<Rightarrow> launch_args \<Rightarrow> launch_exception option"

definition launch ::
  "ui_server \<Rightarrow> launch_args \<Rightarrow> launch_args list \<Rightarrow> launch_exception option \<times> launch_args list" where
  "launch srv args launches = (srv launches args, launches @ [args])"

definition launch_demo ::
  "ui_server \<Rightarrow> launch_args list \<Rightarrow> launch_exception option \<times> launch_args list" where
  "launch_demo srv launches =
     (case launch srv \<lparr>debug = True, share = None\<rparr> launches of
        (None, launches1) \<Rightarrow> (None, launches1)
      | (Some x, launches1) \<Rightarrow>
          if isinstance_Exception x
          then launch srv \<lparr>debug = True, share = Some True\<rparr> launches1
          else (Some x, launches1))"

text \<open>Two servers: one whose first launch is interrupted from the keyboard, one whose first
  launch fails with an \<^verbatim>\<open>OSError\<close>; both accept a launch that asks for sharing.\<close>

definition interrupted_server :: ui_server where
  "interrupted_server launches args = (if share args = None then Some KeyboardInterrupt else None)"

definition busy_port_server :: ui_server where
  "busy_port_server launches args =
     (if share args = None then Some (ExceptionInstance ''OSError'') else None)"

section \<open>The triggers of the treon workflow\<close>

text \<open>
  The workflow file declares
  \<^verbatim>\<open>
  on:
    workflow_dispatch:
    pull_request:
      branches: ['main', 'latest']
      paths: ['notebooks/**.ipynb', 'notebooks/**.py', 'requirements.txt', '.ci/*',
              '.github/workflows/*.yml', '.github/workflows/.env']
    push:
      (the same branches and paths)
  \<close>
  Filter patterns are globs in which \<^verbatim>\<open>*\<close> stands for any run of characters other than
  \<^verbatim>\<open>/\<close> and \<^verbatim>\<open>**\<close> for any run of characters; the patterns of this workflow use no
  other special character.
\<close>

datatype glob_token = Lit char | Star | DoubleStar

fun tokens :: "string \<Rightarrow> glob_token list" where
  "tokens [] = []"
| "tokens [c] = (if c = CHR ''*'' then [Star] else [Lit c])"
| "tokens (c # d # cs) =
     (if c = CHR ''*''
      then (if d = CHR ''*'' then DoubleStar # tokens cs else Star # tokens (d # cs))
      else Lit c # tokens (d # cs))"

fun glob :: "glob_token list \<Rightarrow> string \<Rightarrow> bool" where
  "glob [] s = (s = [])"
| "glob (Lit c # ts) s = (case s of [] \<Rightarrow> False | d # ds \<Rightarrow> c = d \<and> glob ts ds)"
| "glob (Star # ts) s =
     (glob ts s \<or> (case s of [] \<Rightarrow> False | d # ds \<Rightarrow> d \<noteq> CHR ''/'' \<and> glob (Star # ts) ds))"
| "glob (DoubleStar # ts) s =
     (glob ts s \<or> (case s of [] \<Rightarrow> False | d # ds \<Rightarrow> glob (DoubleStar # ts) ds))"

definition matches :: "string \<Rightarrow> string \<Rightarrow> bool" where
  "matches pattern s = glob (tokens pattern) s"

datatype event_name = Push | PullRequest | WorkflowDispatch | OtherEvent string

datatype git_ref = Branch string | Tag string

text \<open>An event carries the ref it is about (the branch pushed to; for a pull request
  its base branch) and the files it changes.\<close>

record event =
  event_name :: event_name
  event_ref :: git_ref
  changed_files :: "string list"

record event_filter =
  branches :: "string list"
  paths :: "string list"

record workflow_on =
  on_workflow_dispatch :: bool
  on_pull_request :: "event_filter option"
  on_push :: "event_filter option"

definition treon :: workflow_on where
  "treon =
     \<lparr>on_workflow_dispatch = True,
      on_pull_request = Some
        \<lparr>branches = [''main'', ''latest''],
         paths = [''notebooks/**.ipynb'', ''notebooks/**.py'', ''requirements.txt'', ''.ci/*'',
                  ''.github/workflows/*.yml'', ''.github/workflows/.env'']\<rparr>,
      on_push = Some
        \<lparr>branches = [''main'', ''latest''],
         paths = [''notebooks/**.ipynb'', ''notebooks/**.py'', ''requirements.txt'', ''.ci/*'',
                  ''.github/workflows/*.yml'', ''.github/workflows/.env'']\<rparr>\<rparr>"

text \<open>A filter lets an event through when its branch matches one of the branch patterns
  and at least one changed file matches one of the path patterns.\<close>

definition filter_accepts :: "event_filter \<Rightarrow> event \<Rightarrow> bool" where
  "filter_accepts f ev =
     ((case event_ref ev of
         Branch b \<Rightarrow> list_ex (\<lambda>pattern. matches pattern b) (branches f)
       | Tag t \<Rightarrow> False) \<and>
      list_ex (\<lambda>file. list_ex (\<lambda>pattern. matches pattern file) (paths f)) (changed_files ev))"

definition triggered :: "workflow_on \<Rightarrow> event \<Rightarrow> bool" where
  "triggered workflow ev =
     (case event_name ev of
        WorkflowDispatch \<Rightarrow> on_workflow_dispatch workflow
      | PullRequest \<Rightarrow>
          (case on_pull_request workflow of None \<Rightarrow> False | Some f \<Rightarrow> filter_accepts f ev)
      | Push \<Rightarrow> (case on_push workflow of None \<Rightarrow> False | Some f \<Rightarrow> filter_accepts f ev)
      | OtherEvent n \<Rightarrow> False)"

text \<open>Two pushes to \<^verbatim>\<open>main\<close>: one changes the notebook, one only the README.\<close>

definition notebook_push :: event where
  "notebook_push =
     \<lparr>event_name = Push, event_ref = Branch ''main'',
      changed_files =
        [''notebooks/dynamicrafter-animating-images/dynamicrafter-animating-images.ipynb'']\<rparr>"

definition readme_push :: event where
  "readme_push = \<lparr>event_name = Push, event_ref = Branch ''main'', changed_files = [''README.md'']\<rparr>"

section \<open>Lemmas\<close>

subsection \<open>Paths and single directories\<close>

lemma lookup_root [simp]: "lookup fs [] = Some Dir"
  by (simp add: lookup_def)

lemma parent_prefix: "prefix (parent p) p"
  by (cases p rule: rev_cases) (simp_all add: parent_def)

lemma parent_snoc [simp]: "parent (p @ [x]) = p"
  by (simp add: parent_def)

lemma not_prefix_parent: "p \<noteq> [] \<Longrightarrow> \<not> prefix p (parent p)"
  by (cases p rule: rev_cases) (auto simp: parent_def)

lemma path_exists_nonempty: "\<not> path_exists fs p \<Longrightarrow> p \<noteq> []"
  by (auto simp: path_exists_def)

lemma is_file_lookup: "is_file fs p \<longleftrightarrow> (\<exists>c. lookup fs p = Some (File c))"
  by (auto simp: is_file_def split: option.splits node.splits)

lemma blocked_iff: "blocked fs p \<longleftrightarrow> (\<exists>r. prefix r p \<and> is_file fs r)"
  by (auto simp: blocked_def list_ex_iff)

lemma lookup_put: "lookup (put fs p n) q = (if q = p \<and> p \<noteq> [] then Some n else lookup fs q)"
  by (simp add: lookup_def put_def)

lemma refused_put [simp]: "refused (put fs p n) = refused fs"
  by (simp add: put_def)

lemma bin_path_not_above: "p \<noteq> [] \<Longrightarrow> \<not> prefix (bin_path p) (parent p)"
  by (cases p rule: rev_cases) (auto simp: bin_path_def parent_def)

lemma bin_path_nonempty [simp]: "bin_path p \<noteq> []"
  by (simp add: bin_path_def)

lemma bin_path_differs: "has_xml_extension p \<Longrightarrow> bin_path p \<noteq> p"
proof
  assume x: "has_xml_extension p" and eq: "bin_path p = p"
  from x obtain q c where p: "p = q @ [c]" and sx: "suffix ''.xml'' c"
    by (cases p rule: rev_cases) (auto simp: has_xml_extension_def)
  from sx obtain s where c: "c = s @ ''.xml''" by (auto simp: suffix_def)
  from eq p c have "s @ ''.bin'' = s @ ''.xml''" by (simp add: bin_path_def)
  then show False by simp
qed

lemma os_mkdir_Inr:
  assumes "os_mkdir fs p = Inr fs'"
  shows "lookup fs p = None" and "p \<noteq> []" and "is_dir fs (parent p)"
    and "lookup fs' q = (if q = p then Some Dir else lookup fs q)"
    and "refused fs' = refused fs"
  using assms
  by (auto simp: os_mkdir_def is_dir_def path_exists_def lookup_def put_def
      split: option.splits node.splits if_splits)


subsection \<open>mkdir\<close>

lemma mkdir_created: "os_mkdir fs p = Inr fs' \<Longrightarrow> mkdir fs p parents exist_ok = (None, fs')"
  by (simp add: mkdir.simps[of fs p])

lemma mkdir_stop:
  "os_mkdir fs p = Inl e \<Longrightarrow> \<not> (e = FileNotFoundError \<and> parents \<and> parent p \<noteq> p) \<Longrightarrow>
   mkdir fs p parents exist_ok =
     (if e = FileNotFoundError \<or> \<not> exist_ok \<or> \<not> is_dir fs p then Some e else None, fs)"
  by (cases e) (auto simp: mkdir.simps[of fs p])

lemma mkdir_ascend:
  "os_mkdir fs p = Inl FileNotFoundError \<Longrightarrow> parents \<Longrightarrow> parent p \<noteq> p \<Longrightarrow>
   mkdir fs p parents exist_ok =
     (case mkdir fs (parent p) True True of
        (Some e, fs') \<Rightarrow> (Some e, fs')
      | (None, fs') \<Rightarrow> mkdir fs' p False exist_ok)"
  by (simp add: mkdir.simps[of fs p])

lemma mkdir_induct [case_names created stop failed_above descend]:
  assumes created: "\<And>fs p parents exist_ok fs'.
      os_mkdir fs p = Inr fs' \<Longrightarrow> mkdir fs p parents exist_ok = (None, fs') \<Longrightarrow>
      P fs p parents exist_ok"
    and stop: "\<And>fs p parents exist_ok e.
      os_mkdir fs p = Inl e \<Longrightarrow> \<not> (e = FileNotFoundError \<and> parents \<and> parent p \<noteq> p) \<Longrightarrow>
      mkdir fs p parents exist_ok =
        (if e = FileNotFoundError \<or> \<not> exist_ok \<or> \<not> is_dir fs p then Some e else None, fs) \<Longrightarrow>
      P fs p parents exist_ok"
    and failed_above: "\<And>fs p parents exist_ok e fs1.
      os_mkdir fs p = Inl FileNotFoundError \<Longrightarrow> parents \<Longrightarrow> parent p \<noteq> p \<Longrightarrow>
      mkdir fs (parent p) True True = (Some e, fs1) \<Longrightarrow>
      mkdir fs p parents exist_ok = (Some e, fs1) \<Longrightarrow>
      P fs (parent p) True True \<Longrightarrow> P fs p parents exist_ok"
    and descend: "\<And>fs p parents exist_ok fs1.
      os_mkdir fs p = Inl FileNotFoundError \<Longrightarrow> parents \<Longrightarrow> parent p \<noteq> p \<Longrightarrow>
      mkdir fs (parent p) True True = (None, fs1) \<Longrightarrow>
      mkdir fs p parents exist_ok = mkdir fs1 p False exist_ok \<Longrightarrow>
      P fs (parent p) True True \<Longrightarrow> P fs1 p False exist_ok \<Longrightarrow> P fs p parents exist_ok"
  shows "P fs p parents exist_ok"
proof (induction fs p parents exist_ok rule: mkdir.induct)
  case (1 fs p parents exist_ok)
  show ?case
  proof (cases "os_mkdir fs p")
    case (Inr fs')
    then show ?thesis
      using created mkdir_created by blast
  next
    case (Inl e)
    show ?thesis
    proof (cases "e = FileNotFoundError \<and> parents \<and> parent p \<noteq> p")
      case False
      show ?thesis
        using stop[OF Inl False mkdir_stop[OF Inl False]] .
    next
      case True
      then have os: "os_mkdir fs p = Inl FileNotFoundError" and par: parents and np: "parent p \<noteq> p"
        using Inl by simp_all
      obtain r fs1 where m1: "mkdir fs (parent p) True True = (r, fs1)"
        by (cases "mkdir fs (parent p) True True")
      have ih1: "P fs (parent p) True True"
        using "1.IH"(1)[of e] Inl True by simp
      show ?thesis
      proof (cases r)
        case (Some e')
        have "mkdir fs p parents exist_ok = (Some e', fs1)"
          using m1 Some by (simp add: mkdir_ascend[OF os par np])
        then show ?thesis
          using failed_above[OF os par np _ _ ih1] m1 Some by simp
      next
        case None
        have ih2: "P fs1 p False exist_ok"
          using "1.IH"(2)[of e r fs1] Inl True m1 None by simp
        have "mkdir fs p parents exist_ok = mkdir fs1 p False exist_ok"
          using m1 None by (simp add: mkdir_ascend[OF os par np])
        then show ?thesis
          using descend[OF os par np _ _ ih1 ih2] m1 None by simp
      qed
    qed
  qed
qed

lemma mkdir_grows:
  "lookup (snd (mkdir fs p parents exist_ok)) q = lookup fs q \<or>
   (lookup fs q = None \<and> lookup (snd (mkdir fs p parents exist_ok)) q = Some Dir)"
proof (induction fs p parents exist_ok rule: mkdir_induct)
  case (created fs p parents exist_ok fs')
  then show ?case
    using os_mkdir_Inr(1,4)[OF created(1)] by auto
next
  case (stop fs p parents exist_ok e)
  then show ?case by simp
next
  case (failed_above fs p parents exist_ok e fs1)
  then show ?case by simp
next
  case (descend fs p parents exist_ok fs1)
  then show ?case by auto
qed


lemma mkdir_frame:
  "\<not> prefix q p \<Longrightarrow> lookup (snd (mkdir fs p parents exist_ok)) q = lookup fs q"
proof (induction fs p parents exist_ok rule: mkdir_induct)
  case (created fs p parents exist_ok fs')
  then show ?case
    using os_mkdir_Inr(4)[OF created(1), of q] by auto
next
  case (stop fs p parents exist_ok e)
  then show ?case by simp
next
  case (failed_above fs p parents exist_ok e fs1)
  moreover have "\<not> prefix q (parent p)"
    using failed_above.prems parent_prefix prefix_order.trans by blast
  ultimately show ?case by simp
next
  case (descend fs p parents exist_ok fs1)
  moreover have "\<not> prefix q (parent p)"
    using descend.prems parent_prefix prefix_order.trans by blast
  ultimately show ?case by simp
qed

lemma mkdir_parent_keeps_missing:
  assumes "\<not> path_exists fs p"
  shows "lookup (snd (mkdir fs (parent p) parents exist_ok)) p = None"
proof -
  have "\<not> prefix p (parent p)"
    using assms not_prefix_parent path_exists_nonempty by blast
  then show ?thesis
    using mkdir_frame[of p "parent p" fs] assms by (simp add: path_exists_def)
qed

lemma mkdir_refused: "refused (snd (mkdir fs p parents exist_ok)) = refused fs"
proof (induction fs p parents exist_ok rule: mkdir_induct)
  case (created fs p parents exist_ok fs')
  then show ?case using os_mkdir_Inr(5)[OF created(1)] by simp
next
  case (stop fs p parents exist_ok e)
  then show ?case by simp
next
  case (failed_above fs p parents exist_ok e fs1)
  then show ?case by simp
next
  case (descend fs p parents exist_ok fs1)
  then show ?case by simp
qed



lemma well_formed_prefix_dirs:
  "well_formed fs \<Longrightarrow> path_exists fs p \<Longrightarrow> prefix r p \<Longrightarrow> r \<noteq> p \<Longrightarrow> is_dir fs r"
proof (induction p rule: rev_induct)
  case Nil
  then show ?case by simp
next
  case (snoc x xs)
  from snoc.prems(1,2) have "is_dir fs (parent (xs @ [x]))"
    unfolding well_formed_def by blast
  then have d: "is_dir fs xs" by simp
  then have ex: "path_exists fs xs"
    by (simp add: is_dir_def path_exists_def)
  from snoc.prems(3,4) have "prefix r xs"
    unfolding prefix_snoc by blast
  show ?case
  proof (cases "r = xs")
    case True
    with d show ?thesis by simp
  next
    case False
    show ?thesis
      by (rule snoc.IH[OF snoc.prems(1) ex \<open>prefix r xs\<close> False])
  qed
qed




lemma well_formed_is_dir_unblocked:
  assumes "well_formed fs" and "is_dir fs q"
  shows "\<not> blocked fs q"
proof
  assume "blocked fs q"
  then obtain r c where r: "prefix r q" "lookup fs r = Some (File c)"
    by (auto simp: blocked_iff is_file_lookup)
  with assms(2) have "r \<noteq> q" by (auto simp: is_dir_def)
  moreover have "path_exists fs q" using assms(2) by (simp add: is_dir_def path_exists_def)
  ultimately have "is_dir fs r"
    using assms(1) r(1) well_formed_prefix_dirs by blast
  with r(2) show False by (simp add: is_dir_def)
qed

subsection \<open>The five ways through convert\<close>

lemma convert_hit: "path_exists (files w) p \<Longrightarrow> convert cm m p e s w = (None, w)"
  by (simp add: convert_def)

lemma convert_mkdir_failed:
  "\<not> path_exists (files w) p \<Longrightarrow> mkdir (files w) (parent p) True True = (Some er, fs1) \<Longrightarrow>
   convert cm m p e s w = (Some (OSError er), w\<lparr>files := fs1\<rparr>)"
  by (simp add: convert_def)

lemma convert_raised:
  "\<not> path_exists (files w) p \<Longrightarrow> mkdir (files w) (parent p) True True = (None, fs1) \<Longrightarrow>
   cm m e (if truthy s then Some s else None) (jit w) = (Inl x, j) \<Longrightarrow>
   convert cm m p e s w =
     (Some (Raised x),
      w\<lparr>files := fs1, jit := j,
        convert_model_calls := convert_model_calls w @
          [\<lparr>call_model = m, call_example_input = e,
            call_input = (if truthy s then Some s else None), call_grad_enabled = False\<rparr>]\<rparr>)"
  by (cases "truthy s") (simp_all add: convert_def with_no_grad_def ov_convert_model_def)

lemma convert_save_failed:
  "\<not> path_exists (files w) p \<Longrightarrow> mkdir (files w) (parent p) True True = (None, fs1) \<Longrightarrow>
   cm m e (if truthy s then Some s else None) (jit w) = (Inr ir, j) \<Longrightarrow>
   save_refusal fs1 p = Some se \<Longrightarrow>
   convert cm m p e s w =
     (Some (SaveError se),
      w\<lparr>files := fs1, jit := j,
        convert_model_calls := convert_model_calls w @
          [\<lparr>call_model = m, call_example_input = e,
            call_input = (if truthy s then Some s else None), call_grad_enabled = False\<rparr>]\<rparr>)"
  by (cases "truthy s")
    (simp_all add: convert_def with_no_grad_def ov_convert_model_def ov_save_model_def)

lemma convert_converted:
  "\<not> path_exists (files w) p \<Longrightarrow> mkdir (files w) (parent p) True True = (None, fs1) \<Longrightarrow>
   cm m e (if truthy s then Some s else None) (jit w) = (Inr ir, j) \<Longrightarrow>
   save_refusal fs1 p = None \<Longrightarrow>
   convert cm m p e s w =
     (None,
      w\<lparr>files := put (put fs1 (bin_path p) (File (Weights ir False))) p (File (Serialized ir False)),
        jit := fresh_jit,
        convert_model_calls := convert_model_calls w @
          [\<lparr>call_model = m, call_example_input = e,
            call_input = (if truthy s then Some s else None), call_grad_enabled = False\<rparr>]\<rparr>)"
  by (cases "truthy s")
    (simp_all add: convert_def with_no_grad_def ov_convert_model_def ov_save_model_def
      jit_clear_class_registry_def reset_concrete_type_store_def clear_class_state_def fresh_jit_def)

lemma convert_cases [case_names hit mkdir_failed raised save_failed converted]:
  assumes "path_exists (files w) p \<Longrightarrow> convert cm m p e s w = (None, w) \<Longrightarrow> P"
    and "\<And>er fs1. \<not> path_exists (files w) p \<Longrightarrow>
           mkdir (files w) (parent p) True True = (Some er, fs1) \<Longrightarrow>
           convert cm m p e s w = (Some (OSError er), w\<lparr>files := fs1\<rparr>) \<Longrightarrow> P"
    and "\<And>fs1 x j. \<not> path_exists (files w) p \<Longrightarrow>
           mkdir (files w) (parent p) True True = (None, fs1) \<Longrightarrow>
           cm m e (if truthy s then Some s else None) (jit w) = (Inl x, j) \<Longrightarrow>
           convert cm m p e s w =
             (Some (Raised x),
              w\<lparr>files := fs1, jit := j,
                convert_model_calls := convert_model_calls w @
                  [\<lparr>call_model = m, call_example_input = e,
                    call_input = (if truthy s then Some s else None),
                    call_grad_enabled = False\<rparr>]\<rparr>) \<Longrightarrow> P"
    and "\<And>fs1 ir j se. \<not> path_exists (files w) p \<Longrightarrow>
           mkdir (files w) (parent p) True True = (None, fs1) \<Longrightarrow>
           cm m e (if truthy s then Some s else None) (jit w) = (Inr ir, j) \<Longrightarrow>
           save_refusal fs1 p = Some se \<Longrightarrow>
           convert cm m p e s w =
             (Some (SaveError se),
              w\<lparr>files := fs1, jit := j,
                convert_model_calls := convert_model_calls w @
                  [\<lparr>call_model = m, call_example_input = e,
                    call_input = (if truthy s then Some s else None),
                    call_grad_enabled = False\<rparr>]\<rparr>) \<Longrightarrow> P"
    and "\<And>fs1 ir j. \<not> path_exists (files w) p \<Longrightarrow>
           mkdir (files w) (parent p) True True = (None, fs1) \<Longrightarrow>
           cm m e (if truthy s then Some s else None) (jit w) = (Inr ir, j) \<Longrightarrow>
           save_refusal fs1 p = None \<Longrightarrow>
           convert cm m p e s w =
             (None,
              w\<lparr>files := put (put fs1 (bin_path p) (File (Weights ir False))) p
                           (File (Serialized ir False)),
                jit := fresh_jit,
                convert_model_calls := convert_model_calls w @
                  [\<lparr>call_model = m, call_example_input = e,
                    call_input = (if truthy s then Some s else None),
                    call_grad_enabled = False\<rparr>]\<rparr>) \<Longrightarrow> P"
  shows P
proof (cases "path_exists (files w) p")
  case True
  show ?thesis by (rule assms(1)[OF True convert_hit[OF True]])
next
  case miss: False
  obtain r fs1 where mk: "mkdir (files w) (parent p) True True = (r, fs1)"
    by (cases "mkdir (files w) (parent p) True True")
  show ?thesis
  proof (cases r)
    case (Some er)
    show ?thesis
      by (rule assms(2)[OF miss mk[unfolded Some] convert_mkdir_failed[OF miss mk[unfolded Some]]])
  next
    case None
    obtain res j where c: "cm m e (if truthy s then Some s else None) (jit w) = (res, j)"
      by (cases "cm m e (if truthy s then Some s else None) (jit w)")
    show ?thesis
    proof (cases res)
      case (Inl x)
      show ?thesis
        by (rule assms(3)[OF miss mk[unfolded None] c[unfolded Inl]
              convert_raised[where cm=cm and m=m and e=e and s=s, OF miss mk[unfolded None] c[unfolded Inl]]])
    next
      case (Inr ir)
      show ?thesis
      proof (cases "save_refusal fs1 p")
        case (Some se)
        show ?thesis
          by (rule assms(4)[OF miss mk[unfolded None] c[unfolded Inr] Some
                convert_save_failed[where cm=cm and m=m and e=e and s=s,
                  OF miss mk[unfolded None] c[unfolded Inr] Some]])
      next
        case ok: None
        show ?thesis
          by (rule assms(5)[OF miss mk[unfolded None] c[unfolded Inr] ok
                convert_converted[where cm=cm and m=m and e=e and s=s,
                  OF miss mk[unfolded None] c[unfolded Inr] ok]])
      qed
    qed
  qed
qed

lemma save_refusal_None:
  assumes "save_refusal fs p = None"
  shows "has_xml_extension p" and "\<not> is_dir fs (bin_path p)" and "\<not> is_dir fs p"
  using assms by (auto simp: save_refusal_def cannot_open_def split: if_splits)

lemma lookup_saved:
  assumes "p \<noteq> []"
  shows "lookup (put (put fs (bin_path p) b) p x) q =
         (if q = p then Some x else if q = bin_path p then Some b else lookup fs q)"
  using assms by (simp add: lookup_put)

subsection \<open>What a call leaves as it was\<close>

lemma convert_keeps_content:
  assumes "lookup (files w) q = Some n" and "q \<noteq> bin_path p"
  shows "lookup (files (snd (convert cm m p e s w))) q = Some n"
proof (cases rule: convert_cases[of w p cm m e s])
  case hit
  with assms show ?thesis by simp
next
  case (mkdir_failed er fs1)
  with assms mkdir_grows[of "files w" "parent p" True True q] show ?thesis by auto
next
  case (raised fs1 x j)
  with assms mkdir_grows[of "files w" "parent p" True True q] show ?thesis by auto
next
  case (save_failed fs1 ir j se)
  with assms mkdir_grows[of "files w" "parent p" True True q] show ?thesis by auto
next
  case (converted fs1 ir j)
  have "q \<noteq> p" using assms(1) converted(1) by (auto simp: path_exists_def)
  moreover have "lookup fs1 q = Some n"
    using assms(1) mkdir_grows[of "files w" "parent p" True True q] converted(2) by auto
  ultimately show ?thesis
    using assms(2) path_exists_nonempty[OF converted(1)] by (simp add: converted(5) lookup_saved)
qed

lemma convert_keeps_dir:
  assumes "is_dir (files w) q"
  shows "is_dir (files (snd (convert cm m p e s w))) q"
proof (cases "q = bin_path p")
  case False
  with assms show ?thesis
    using convert_keeps_content[of w q Dir p cm m e s] by (simp add: is_dir_def)
next
  case True
  show ?thesis
  proof (cases rule: convert_cases[of w p cm m e s])
    case hit
    with assms show ?thesis by simp
  next
    case (mkdir_failed er fs1)
    with assms mkdir_grows[of "files w" "parent p" True True q] show ?thesis
      by (auto simp: is_dir_def)
  next
    case (raised fs1 x j)
    with assms mkdir_grows[of "files w" "parent p" True True q] show ?thesis
      by (auto simp: is_dir_def)
  next
    case (save_failed fs1 ir j se)
    with assms mkdir_grows[of "files w" "parent p" True True q] show ?thesis
      by (auto simp: is_dir_def)
  next
    case (converted fs1 ir j)
    have "is_dir fs1 q"
      using assms mkdir_grows[of "files w" "parent p" True True q] converted(2)
      by (auto simp: is_dir_def)
    with save_refusal_None(2)[OF converted(4)] True show ?thesis by simp
  qed
qed

lemma convert_keeps_exists:
  assumes "path_exists (files w) q"
  shows "path_exists (files (snd (convert cm m p e s w))) q"
proof (cases "q = bin_path p")
  case False
  from assms obtain n where "lookup (files w) q = Some n"
    by (auto simp: path_exists_def)
  from convert_keeps_content[OF this False, of cm m e s] show ?thesis
    by (simp add: path_exists_def)
next
  case True
  show ?thesis
  proof (cases rule: convert_cases[of w p cm m e s])
    case hit
    with assms show ?thesis by simp
  next
    case (mkdir_failed er fs1)
    with assms mkdir_grows[of "files w" "parent p" True True q] show ?thesis
      by (auto simp: path_exists_def)
  next
    case (raised fs1 x j)
    with assms mkdir_grows[of "files w" "parent p" True True q] show ?thesis
      by (auto simp: path_exists_def)
  next
    case (save_failed fs1 ir j se)
    with assms mkdir_grows[of "files w" "parent p" True True q] show ?thesis
      by (auto simp: path_exists_def)
  next
    case (converted fs1 ir j)
    then show ?thesis
      using True path_exists_nonempty[OF converted(1)]
      by (simp add: path_exists_def lookup_saved)
  qed
qed

lemma convert_all_keeps_exists:
  "path_exists (files w) q \<Longrightarrow> path_exists (files (convert_all cm rs w)) q"
  by (induction rs arbitrary: w) (simp_all add: convert_request_def convert_keeps_exists)

lemma convert_returned_exists:
  assumes "fst (convert cm m p e s w) = None"
  shows "path_exists (files (snd (convert cm m p e s w))) p"
proof (cases rule: convert_cases[of w p cm m e s])
  case hit
  then show ?thesis by simp
next
  case (mkdir_failed er fs1)
  with assms show ?thesis by simp
next
  case (raised fs1 x j)
  with assms show ?thesis by simp
next
  case (save_failed fs1 ir j se)
  with assms show ?thesis by simp
next
  case (converted fs1 ir j)
  then show ?thesis
    using path_exists_nonempty[OF converted(1)] by (simp add: path_exists_def lookup_saved)
qed




lemma convert_returned_jit:
  assumes "fst (convert cm m p e s w) = None"
  shows "jit (snd (convert cm m p e s w)) = (if path_exists (files w) p then jit w else fresh_jit)"
proof (cases rule: convert_cases[of w p cm m e s])
  case hit
  then show ?thesis by simp
next
  case (mkdir_failed er fs1)
  with assms show ?thesis by simp
next
  case (raised fs1 x j)
  with assms show ?thesis by simp
next
  case (save_failed fs1 ir j se)
  with assms show ?thesis by simp
next
  case (converted fs1 ir j)
  then show ?thesis by simp
qed

lemma jit_size_fresh [simp]: "jit_size fresh_jit = 0"
  by (simp add: jit_size_def fresh_jit_def)

lemma all_returned_jit_size:
  "all_returned cm rs w \<Longrightarrow> jit_size (jit (convert_all cm rs w)) \<le> jit_size (jit w)"
proof (induction rs arbitrary: w)
  case Nil
  then show ?case by simp
next
  case (Cons r rs)
  let ?w' = "snd (convert_request cm r w)"
  from Cons.prems have ok: "fst (convert_request cm r w) = None" and rest: "all_returned cm rs ?w'"
    by simp_all
  have "jit_size (jit ?w') \<le> jit_size (jit w)"
    using convert_returned_jit[of cm "req_model r" "req_path r" "req_example_input r" "req_input_shape r" w] ok
    by (simp add: convert_request_def)
  moreover have "jit_size (jit (convert_all cm rs ?w')) \<le> jit_size (jit ?w')"
    using rest by (rule Cons.IH)
  ultimately show ?case by simp
qed

subsection \<open>The stub converters at work\<close>

lemmas convert_unfold =
  convert_def with_no_grad_def ov_convert_model_def ov_save_model_def save_refusal_def
  cannot_open_def has_xml_extension_def bin_path_def suffix_to_prefix
  jit_clear_class_registry_def reset_concrete_type_store_def clear_class_state_def

lemmas tree_unfold =
  os_mkdir_def path_exists_def lookup_def parent_def is_dir_def is_file_def blocked_def put_def
  permissive_def

lemma mkdir_models:
  "mkdir (permissive Map.empty) [''models''] True True = (None, permissive [[''models''] \<mapsto> Dir])"
  by (simp add: mkdir.simps tree_unfold)

lemma convert_x:
  "convert stub_converter CondStageModel [''models'', ''x.xml''] ''dummy'' PyNone fresh_world
     = (None, x_world)"
  by (simp add: convert_unfold fresh_world_def tree_unfold mkdir.simps stub_converter_def
      fresh_jit_def x_world_def)


lemma convert_txt:
  "convert stub_converter CondStageModel [''models'', ''x.txt''] ''dummy'' PyNone fresh_world
     = (Some (SaveError NoXmlExtension),
        \<lparr>files = permissive [[''models''] \<mapsto> Dir], grad_enabled = True,
         jit = \<lparr>class_registry = [''traced''], concrete_type_store = [], class_state = []\<rparr>,
         convert_model_calls =
           [\<lparr>call_model = CondStageModel, call_example_input = ''dummy'', call_input = None,
             call_grad_enabled = False\<rparr>]\<rparr>)"
  by (simp add: convert_unfold fresh_world_def tree_unfold mkdir.simps stub_converter_def
      fresh_jit_def)

lemma mkdir_blocked_models:
  "mkdir (permissive [[''models''] \<mapsto> File (Blob ''not a directory'')]) [''models'', ''ir'']
     True True
     = (Some NotADirectoryError, permissive [[''models''] \<mapsto> File (Blob ''not a directory'')])"
  by (simp add: mkdir.simps tree_unfold)

lemma convert_blocked:
  "convert stub_converter CondStageModel [''models'', ''ir'', ''x.xml''] ''dummy'' PyNone blocked_world
     = (Some (OSError NotADirectoryError), blocked_world)"
  by (simp add: convert_def blocked_world_def tree_unfold mkdir.simps)

lemma convert_read_only:
  "convert stub_converter CondStageModel [''models'', ''x.xml''] ''dummy'' PyNone read_only_world
     = (Some (OSError (Fault EACCES)), read_only_world)"
  by (simp add: convert_def read_only_world_def tree_unfold mkdir.simps)

lemma convert_failing:
  "convert failing_converter CondStageModel [''models'', ''x.xml''] ''dummy'' PyNone fresh_world
     = (Some (Raised ''unsupported operator''),
        \<lparr>files = permissive [[''models''] \<mapsto> Dir], grad_enabled = True,
         jit = \<lparr>class_registry = [''traced''], concrete_type_store = [], class_state = []\<rparr>,
         convert_model_calls =
           [\<lparr>call_model = CondStageModel, call_example_input = ''dummy'', call_input = None,
             call_grad_enabled = False\<rparr>]\<rparr>)"
  by (simp add: convert_unfold fresh_world_def tree_unfold mkdir.simps failing_converter_def
      fresh_jit_def)



lemma fresh_world_miss: "\<not> path_exists (files fresh_world) [''models'', ''x.xml'']"
  by (simp add: fresh_world_def tree_unfold)

lemma fresh_world_mkdir:
  "mkdir (files fresh_world) (parent [''models'', ''x.xml'']) True True
     = (None, permissive [[''models''] \<mapsto> Dir])"
  by (simp add: fresh_world_def parent_def mkdir_models)

lemma blocked_world_miss: "\<not> path_exists (files blocked_world) [''models'', ''ir'', ''x.xml'']"
  by (simp add: blocked_world_def tree_unfold)

lemma all_returned_notebook: "all_returned stub_converter notebook_requests fresh_world"
  by (simp add: notebook_requests_def convert_request_def convert_unfold mkdir.simps tree_unfold
      fresh_world_def stub_converter_def fresh_jit_def)

subsection \<open>Glob patterns\<close>

lemma glob_lits: "glob (map Lit l @ ts) s \<longleftrightarrow> (\<exists>r. s = l @ r \<and> glob ts r)"
  by (induction l arbitrary: s) (auto split: list.splits)

lemma glob_lits_only: "glob (map Lit l) s \<longleftrightarrow> s = l"
  using glob_lits[of l "[]" s] by simp

lemma glob_double_star: "glob (DoubleStar # ts) s \<longleftrightarrow> (\<exists>a b. s = a @ b \<and> glob ts b)"
proof (induction s)
  case Nil
  then show ?case by simp
next
  case (Cons d ds)
  show ?case
  proof
    assume "glob (DoubleStar # ts) (d # ds)"
    then consider "glob ts (d # ds)" | "glob (DoubleStar # ts) ds" by auto
    then show "\<exists>a b. d # ds = a @ b \<and> glob ts b"
    proof cases
      case 1
      then have "d # ds = [] @ (d # ds) \<and> glob ts (d # ds)" by simp
      then show ?thesis by blast
    next
      case 2
      then obtain a b where "ds = a @ b" "glob ts b" using Cons.IH by blast
      then have "d # ds = (d # a) @ b \<and> glob ts b" by simp
      then show ?thesis by blast
    qed
  next
    assume "\<exists>a b. d # ds = a @ b \<and> glob ts b"
    then obtain a b where ab: "d # ds = a @ b" "glob ts b" by blast
    show "glob (DoubleStar # ts) (d # ds)"
    proof (cases a)
      case Nil
      with ab show ?thesis by simp
    next
      case (Cons a1 as)
      with ab have "ds = as @ b" by simp
      with ab(2) Cons.IH have "glob (DoubleStar # ts) ds" by blast
      then show ?thesis by simp
    qed
  qed
qed

lemma glob_star:
  "glob (Star # ts) s \<longleftrightarrow> (\<exists>a b. s = a @ b \<and> CHR ''/'' \<notin> set a \<and> glob ts b)"
proof (induction s)
  case Nil
  then show ?case by simp
next
  case (Cons d ds)
  show ?case
  proof
    assume "glob (Star # ts) (d # ds)"
    then consider "glob ts (d # ds)" | "d \<noteq> CHR ''/''" "glob (Star # ts) ds" by auto
    then show "\<exists>a b. d # ds = a @ b \<and> CHR ''/'' \<notin> set a \<and> glob ts b"
    proof cases
      case 1
      then have "d # ds = [] @ (d # ds) \<and> CHR ''/'' \<notin> set [] \<and> glob ts (d # ds)" by simp
      then show ?thesis by blast
    next
      case 2
      then obtain a b where "ds = a @ b" "CHR ''/'' \<notin> set a" "glob ts b" using Cons.IH by blast
      with 2(1) have "d # ds = (d # a) @ b \<and> CHR ''/'' \<notin> set (d # a) \<and> glob ts b" by simp
      then show ?thesis by blast
    qed
  next
    assume "\<exists>a b. d # ds = a @ b \<and> CHR ''/'' \<notin> set a \<and> glob ts b"
    then obtain a b where ab: "d # ds = a @ b" "CHR ''/'' \<notin> set a" "glob ts b" by blast
    show "glob (Star # ts) (d # ds)"
    proof (cases a)
      case Nil
      with ab show ?thesis by simp
    next
      case (Cons a1 as)
      with ab have "ds = as @ b" "d \<noteq> CHR ''/''" "CHR ''/'' \<notin> set as" by auto
      with ab(3) Cons.IH have "glob (Star # ts) ds" by blast
      with \<open>d \<noteq> CHR ''/''\<close> show ?thesis by simp
    qed
  qed
qed

lemma tokens_notebooks_ipynb:
  "tokens ''notebooks/**.ipynb'' = map Lit ''notebooks/'' @ DoubleStar # map Lit ''.ipynb''"
  by simp

lemma tokens_notebooks_py:
  "tokens ''notebooks/**.py'' = map Lit ''notebooks/'' @ DoubleStar # map Lit ''.py''"
  by simp

lemma tokens_requirements: "tokens ''requirements.txt'' = map Lit ''requirements.txt''"
  by simp

lemma tokens_ci: "tokens ''.ci/*'' = map Lit ''.ci/'' @ Star # map Lit []"
  by simp

lemma tokens_workflows_yml:
  "tokens ''.github/workflows/*.yml'' = map Lit ''.github/workflows/'' @ Star # map Lit ''.yml''"
  by simp

lemma tokens_workflows_env: "tokens ''.github/workflows/.env'' = map Lit ''.github/workflows/.env''"
  by simp

lemma tokens_main: "tokens ''main'' = map Lit ''main''"
  by simp

lemma tokens_latest: "tokens ''latest'' = map Lit ''latest''"
  by simp

lemma matches_notebooks_ipynb:
  "matches ''notebooks/**.ipynb'' f \<longleftrightarrow> (\<exists>s. f = ''notebooks/'' @ s @ ''.ipynb'')"
  unfolding matches_def tokens_notebooks_ipynb glob_lits glob_double_star glob_lits_only
  by auto

lemma matches_notebooks_py:
  "matches ''notebooks/**.py'' f \<longleftrightarrow> (\<exists>s. f = ''notebooks/'' @ s @ ''.py'')"
  unfolding matches_def tokens_notebooks_py glob_lits glob_double_star glob_lits_only
  by auto

lemma matches_requirements: "matches ''requirements.txt'' f \<longleftrightarrow> f = ''requirements.txt''"
  unfolding matches_def tokens_requirements glob_lits_only ..

lemma matches_ci: "matches ''.ci/*'' f \<longleftrightarrow> (\<exists>s. f = ''.ci/'' @ s \<and> CHR ''/'' \<notin> set s)"
  unfolding matches_def tokens_ci glob_lits glob_star glob_lits_only
  by auto

lemma matches_workflows_yml:
  "matches ''.github/workflows/*.yml'' f \<longleftrightarrow>
     (\<exists>s. f = ''.github/workflows/'' @ s @ ''.yml'' \<and> CHR ''/'' \<notin> set s)"
  unfolding matches_def tokens_workflows_yml glob_lits glob_star glob_lits_only
  by auto

lemma matches_workflows_env:
  "matches ''.github/workflows/.env'' f \<longleftrightarrow> f = ''.github/workflows/.env''"
  unfolding matches_def tokens_workflows_env glob_lits_only ..

lemma matches_main: "matches ''main'' b \<longleftrightarrow> b = ''main''"
  unfolding matches_def tokens_main glob_lits_only ..

lemma matches_latest: "matches ''latest'' b \<longleftrightarrow> b = ''latest''"
  unfolding matches_def tokens_latest glob_lits_only ..

lemmas matches_treon =
  matches_notebooks_ipynb matches_notebooks_py matches_requirements matches_ci
  matches_workflows_yml matches_workflows_env matches_main matches_latest

section \<open>The claims\<close>

text \<open>
  C1 (idempotence of the conversion cache step). Once a call of \<open>convert\<close> with
  destination \<open>p\<close> has returned normally, every later call with the same destination,
  whatever its other arguments and whatever calls of \<open>convert\<close> were made in between,
  returns normally and leaves the whole state as it found it: the converter is not
  invoked again and its call log does not grow.
\<close>

theorem convert_idempotent:
  assumes "convert cm m p e s w = (None, w1)"
  shows "convert cm m' p e' s' (convert_all cm rs w1) = (None, convert_all cm rs w1)"
proof -
  have "path_exists (files w1) p"
    using convert_returned_exists[of cm m p e s w] assms by simp
  then have "path_exists (files (convert_all cm rs w1)) p"
    by (rule convert_all_keeps_exists)
  then show ?thesis by (rule convert_hit)
qed

theorem convert_idempotent_witness:
  "convert stub_converter CondStageModel [''models'', ''x.xml''] ''dummy'' PyNone fresh_world
      = (None, x_world) \<and>
   length (convert_model_calls x_world) = 1 \<and>
   convert stub_converter Embedder [''models'', ''x.xml''] ''other'' (PyList [PyInt 1]) x_world
      = (None, x_world) \<and>
   convert stub_converter Embedder [''models'', ''x.xml''] ''other'' (PyList [PyInt 1])
      (convert_all stub_converter notebook_requests x_world)
      = (None, convert_all stub_converter notebook_requests x_world)"
proof -
  have h: "convert stub_converter CondStageModel [''models'', ''x.xml''] ''dummy'' PyNone fresh_world
      = (None, x_world)" by (rule convert_x)
  have calls: "length (convert_model_calls x_world) = 1"
    by (simp add: x_world_def)
  show ?thesis
    using h calls
      convert_idempotent[OF h, of Embedder "''other''" "PyList [PyInt 1]" "[]"]
      convert_idempotent[OF h, of Embedder "''other''" "PyList [PyInt 1]" notebook_requests]
    by simp
qed

text \<open>
  C2 (no staleness check). When a call of \<open>convert\<close> for module \<open>m1\<close> found
  nothing at \<open>p\<close> and returned normally, the file at \<open>p\<close> holds the representation the
  converter produced from \<open>m1\<close>; a later call for any module \<open>m2\<close>, example input and
  shape with the same \<open>p\<close> returns normally with the state unchanged, so the file system
  is the same and the file at \<open>p\<close> still holds what was produced from \<open>m1\<close>.
\<close>

theorem stale_artifact_reused:
  assumes miss: "\<not> path_exists (files w) p"
    and first: "convert cm m1 p e1 s1 w = (None, w1)"
  shows "files (snd (convert cm m2 p e2 s2 w1)) = files w1 \<and>
         convert cm m2 p e2 s2 w1 = (None, w1) \<and>
         (\<exists>ir j. cm m1 e1 (if truthy s1 then Some s1 else None) (jit w) = (Inr ir, j) \<and>
            lookup (files (snd (convert cm m2 p e2 s2 w1))) p = Some (File (Serialized ir False)))"
proof (cases rule: convert_cases[of w p cm m1 e1 s1])
  case hit
  with miss show ?thesis by simp
next
  case (mkdir_failed er fs1)
  with first show ?thesis by simp
next
  case (raised fs1 x j)
  with first show ?thesis by simp
next
  case (save_failed fs1 ir j se)
  with first show ?thesis by simp
next
  case (converted fs1 ir j)
  have np: "p \<noteq> []" using miss by (rule path_exists_nonempty)
  have w1: "w1 = w\<lparr>files := put (put fs1 (bin_path p) (File (Weights ir False))) p
                           (File (Serialized ir False)),
                jit := fresh_jit,
                convert_model_calls := convert_model_calls w @
                  [\<lparr>call_model = m1, call_example_input = e1,
                    call_input = (if truthy s1 then Some s1 else None),
                    call_grad_enabled = False\<rparr>]\<rparr>"
    using first converted(5) by simp
  have at_p: "lookup (files w1) p = Some (File (Serialized ir False))"
    using np by (simp add: w1 lookup_saved)
  then have "path_exists (files w1) p" by (simp add: path_exists_def)
  then have again: "convert cm m2 p e2 s2 w1 = (None, w1)" by (rule convert_hit)
  have "files (snd (convert cm m2 p e2 s2 w1)) = files w1"
    by (simp add: again)
  moreover have "lookup (files (snd (convert cm m2 p e2 s2 w1))) p = Some (File (Serialized ir False))"
    by (simp add: again at_p)
  ultimately show ?thesis
    using again converted(3) by blast
qed

theorem stale_artifact_reused_witness:
  "\<not> path_exists (files fresh_world) [''models'', ''x.xml''] \<and>
   convert stub_converter CondStageModel [''models'', ''x.xml''] ''dummy'' PyNone fresh_world
     = (None, x_world) \<and>
   convert stub_converter Embedder [''models'', ''x.xml''] ''other'' (PyList [PyInt 1]) x_world
     = (None, x_world) \<and>
   lookup (files x_world) [''models'', ''x.xml'']
     = Some (File (Serialized (CondStageModel, None) False))"
  using fresh_world_miss convert_x
    stale_artifact_reused[OF fresh_world_miss convert_x, of Embedder "''other''" "PyList [PyInt 1]"]
  by (simp add: x_world_def lookup_def permissive_def)




text \<open>
  C4 (error propagation). On a cache miss on which the parent directory was made and
  the converter raises \<open>x\<close>: \<open>convert\<close> raises that same \<open>x\<close>; nothing exists at \<open>p\<close>
  afterwards, the file system being the one \<open>mkdir\<close> left (so the parent directory may
  be new); the converter was invoked exactly once (no retry), under gradient mode off;
  and the gradient mode of the caller is restored.
\<close>

theorem converter_error_propagates:
  assumes miss: "\<not> path_exists (files w) p"
    and mk: "mkdir (files w) (parent p) True True = (None, fs1)"
    and raises: "cm m e (if truthy s then Some s else None) (jit w) = (Inl x, j)"
  shows "fst (convert cm m p e s w) = Some (Raised x) \<and>
         \<not> path_exists (files (snd (convert cm m p e s w))) p \<and>
         files (snd (convert cm m p e s w)) = fs1 \<and>
         convert_model_calls (snd (convert cm m p e s w)) =
           convert_model_calls w @
             [\<lparr>call_model = m, call_example_input = e,
               call_input = (if truthy s then Some s else None), call_grad_enabled = False\<rparr>] \<and>
         grad_enabled (snd (convert cm m p e s w)) = grad_enabled w"
proof -
  have "lookup fs1 p = None"
    using mkdir_parent_keeps_missing[OF miss, of True True] mk by simp
  then show ?thesis
    by (simp add: convert_raised[where cm=cm and m=m and e=e and s=s, OF miss mk raises]
        path_exists_def)
qed

theorem converter_error_propagates_witness:
  "\<not> path_exists (files fresh_world) [''models'', ''x.xml''] \<and>
   mkdir (files fresh_world) (parent [''models'', ''x.xml'']) True True
     = (None, permissive [[''models''] \<mapsto> Dir]) \<and>
   failing_converter CondStageModel ''dummy'' None (jit fresh_world)
     = (Inl ''unsupported operator'', fresh_jit\<lparr>class_registry := [''traced'']\<rparr>) \<and>
   fst (convert failing_converter CondStageModel [''models'', ''x.xml''] ''dummy'' PyNone fresh_world)
     = Some (Raised ''unsupported operator'') \<and>
   \<not> path_exists (files (snd (convert failing_converter CondStageModel [''models'', ''x.xml'']
       ''dummy'' PyNone fresh_world))) [''models'', ''x.xml''] \<and>
   length (convert_model_calls (snd (convert failing_converter CondStageModel
       [''models'', ''x.xml''] ''dummy'' PyNone fresh_world))) = 1"
proof -
  have r: "failing_converter CondStageModel ''dummy'' (if truthy PyNone then Some PyNone else None)
      (jit fresh_world) = (Inl ''unsupported operator'', fresh_jit\<lparr>class_registry := [''traced'']\<rparr>)"
    by (simp add: failing_converter_def fresh_world_def fresh_jit_def)
  have no_calls: "convert_model_calls fresh_world = []"
    by (simp add: fresh_world_def)
  have r': "failing_converter CondStageModel ''dummy'' None (jit fresh_world)
      = (Inl ''unsupported operator'', fresh_jit\<lparr>class_registry := [''traced'']\<rparr>)"
    using r by simp
  show ?thesis
    using fresh_world_miss fresh_world_mkdir r' no_calls
      converter_error_propagates[where cm = failing_converter and m = CondStageModel
        and e = "''dummy''" and s = PyNone, OF fresh_world_miss fresh_world_mkdir r]
    by (simp add: tree_unfold)
qed




text \<open>
  C6 (what a cache miss does, as the code has it). On a cache miss on which the call
  raises no operating-system error (so the creation of the parent directory went
  through), \<open>convert\<close> invokes the converter exactly once, with gradient mode off, and
  restores the caller's gradient mode. Whenever the call returns normally, the
  representation the converter returned is at \<open>p\<close>, and its weights beside it, both
  written with \<^verbatim>\<open>compress_to_fp16=False\<close>. A destination that does not end in
  \<^verbatim>\<open>.xml\<close> never returns normally.
\<close>

theorem cache_miss_conversion:
  assumes miss: "\<not> path_exists (files w) p"
    and no_os_error: "\<forall>er. fst (convert cm m p e s w) \<noteq> Some (OSError er)"
  shows "convert_model_calls (snd (convert cm m p e s w)) =
           convert_model_calls w @
             [\<lparr>call_model = m, call_example_input = e,
               call_input = (if truthy s then Some s else None), call_grad_enabled = False\<rparr>] \<and>
         grad_enabled (snd (convert cm m p e s w)) = grad_enabled w \<and>
         (fst (convert cm m p e s w) = None \<longrightarrow>
            (\<exists>ir j. cm m e (if truthy s then Some s else None) (jit w) = (Inr ir, j) \<and>
               lookup (files (snd (convert cm m p e s w))) p = Some (File (Serialized ir False)) \<and>
               lookup (files (snd (convert cm m p e s w))) (bin_path p)
                 = Some (File (Weights ir False)))) \<and>
         (\<not> has_xml_extension p \<longrightarrow> fst (convert cm m p e s w) \<noteq> None)"
proof (cases rule: convert_cases[of w p cm m e s])
  case hit
  with miss show ?thesis by simp
next
  case (mkdir_failed er fs1)
  with no_os_error show ?thesis by simp
next
  case (raised fs1 x j)
  then show ?thesis by simp
next
  case (save_failed fs1 ir j se)
  then show ?thesis by simp
next
  case (converted fs1 ir j)
  have x: "has_xml_extension p"
    using converted(4) by (rule save_refusal_None(1))
  then have "bin_path p \<noteq> p"
    by (rule bin_path_differs)
  then show ?thesis
    using converted x path_exists_nonempty[OF miss] by (simp add: lookup_saved)
qed

theorem cache_miss_conversion_witness:
  "\<not> path_exists (files fresh_world) [''models'', ''x.xml''] \<and>
   (\<forall>er. fst (convert stub_converter CondStageModel [''models'', ''x.xml''] ''dummy'' PyNone
      fresh_world) \<noteq> Some (OSError er)) \<and>
   convert_model_calls (snd (convert stub_converter CondStageModel [''models'', ''x.xml'']
       ''dummy'' PyNone fresh_world)) =
     [\<lparr>call_model = CondStageModel, call_example_input = ''dummy'', call_input = None,
       call_grad_enabled = False\<rparr>] \<and>
   fst (convert stub_converter CondStageModel [''models'', ''x.xml''] ''dummy'' PyNone fresh_world)
     = None \<and>
   lookup (files (snd (convert stub_converter CondStageModel [''models'', ''x.xml''] ''dummy''
       PyNone fresh_world))) [''models'', ''x.xml'']
     = Some (File (Serialized (CondStageModel, None) False)) \<and>
   lookup (files (snd (convert stub_converter CondStageModel [''models'', ''x.xml''] ''dummy''
       PyNone fresh_world))) (bin_path [''models'', ''x.xml''])
     = Some (File (Weights (CondStageModel, None) False))"
proof -
  have ok: "fst (convert stub_converter CondStageModel [''models'', ''x.xml''] ''dummy'' PyNone
      fresh_world) = None"
    by (simp add: convert_x)
  then have noe: "\<forall>er. fst (convert stub_converter CondStageModel [''models'', ''x.xml'']
      ''dummy'' PyNone fresh_world) \<noteq> Some (OSError er)"
    by simp
  have no_calls: "convert_model_calls fresh_world = []"
    by (simp add: fresh_world_def)
  have st: "stub_converter CondStageModel ''dummy'' None (jit fresh_world)
      = (Inr (CondStageModel, None), fresh_jit\<lparr>class_registry := [''traced'']\<rparr>)"
    by (simp add: stub_converter_def fresh_world_def fresh_jit_def)
  show ?thesis
    using fresh_world_miss ok no_calls st cache_miss_conversion[OF fresh_world_miss noe]
    by simp
qed

text \<open>Three cache misses: with \<^verbatim>\<open>models\<close> a regular file, and on a system that lets
  no directory be made, the converter is never invoked; with the destination
  \<^verbatim>\<open>models/x.txt\<close> the converter returns, the save raises, and the representation is not
  at the destination.\<close>

theorem cache_miss_conversion_counterexample:
  "\<not> path_exists (files blocked_world) [''models'', ''ir'', ''x.xml''] \<and>
   convert_model_calls (snd (convert stub_converter CondStageModel [''models'', ''ir'', ''x.xml'']
       ''dummy'' PyNone blocked_world)) = [] \<and>
   \<not> path_exists (files read_only_world) [''models'', ''x.xml''] \<and>
   convert stub_converter CondStageModel [''models'', ''x.xml''] ''dummy'' PyNone read_only_world
     = (Some (OSError (Fault EACCES)), read_only_world) \<and>
   convert_model_calls read_only_world = [] \<and>
   \<not> path_exists (files fresh_world) [''models'', ''x.txt''] \<and>
   length (convert_model_calls (snd (convert stub_converter CondStageModel
       [''models'', ''x.txt''] ''dummy'' PyNone fresh_world))) = 1 \<and>
   fst (convert stub_converter CondStageModel [''models'', ''x.txt''] ''dummy'' PyNone fresh_world)
     = Some (SaveError NoXmlExtension) \<and>
   lookup (files (snd (convert stub_converter CondStageModel [''models'', ''x.txt''] ''dummy''
       PyNone fresh_world))) [''models'', ''x.txt'']
     \<noteq> Some (File (Serialized (CondStageModel, None) False))"
  by (simp add: convert_blocked convert_txt convert_read_only blocked_world_miss)
    (simp add: blocked_world_def fresh_world_def read_only_world_def tree_unfold)

text \<open>
  C7 (registry cleanup). After a cache miss that returned normally the three class
  registries are in their fresh, empty state; on a cache hit they are what they were.
  So over any sequence of calls that all return normally the registries never end up
  larger than they started.
\<close>

theorem registry_reset_after_conversion:
  "(\<not> path_exists (files w) p \<and> fst (convert cm m p e s w) = None
      \<longrightarrow> jit (snd (convert cm m p e s w)) = fresh_jit) \<and>
   (path_exists (files w) p \<longrightarrow> jit (snd (convert cm m p e s w)) = jit w) \<and>
   (all_returned cm rs w \<longrightarrow> jit_size (jit (convert_all cm rs w)) \<le> jit_size (jit w)) \<and>
   jit_size fresh_jit = 0"
proof (intro conjI impI)
  assume "\<not> path_exists (files w) p \<and> fst (convert cm m p e s w) = None"
  then show "jit (snd (convert cm m p e s w)) = fresh_jit"
    using convert_returned_jit[of cm m p e s w] by simp
next
  assume "path_exists (files w) p"
  then show "jit (snd (convert cm m p e s w)) = jit w"
    by (simp add: convert_hit)
next
  assume "all_returned cm rs w"
  then show "jit_size (jit (convert_all cm rs w)) \<le> jit_size (jit w)"
    by (rule all_returned_jit_size)
next
  show "jit_size fresh_jit = 0" by simp
qed

theorem registry_reset_after_conversion_witness:
  "\<not> path_exists (files fresh_world) [''models'', ''x.xml''] \<and>
   fst (convert stub_converter CondStageModel [''models'', ''x.xml''] ''dummy'' PyNone fresh_world)
     = None \<and>
   jit (snd (convert stub_converter CondStageModel [''models'', ''x.xml''] ''dummy'' PyNone
     fresh_world)) = fresh_jit \<and>
   path_exists (files x_world) [''models'', ''x.xml''] \<and>
   jit (snd (convert stub_converter Embedder [''models'', ''x.xml''] ''other'' (PyList [PyInt 1])
     x_world)) = jit x_world \<and>
   all_returned stub_converter notebook_requests fresh_world \<and>
   jit_size (jit (convert_all stub_converter notebook_requests fresh_world)) = 0"
proof -
  have ok: "fst (convert stub_converter CondStageModel [''models'', ''x.xml''] ''dummy'' PyNone
      fresh_world) = None"
    by (simp add: convert_x)
  have ex: "path_exists (files x_world) [''models'', ''x.xml'']"
    by (simp add: x_world_def tree_unfold)
  have z: "jit_size (jit fresh_world) = 0"
    by (simp add: fresh_world_def)
  show ?thesis
    using ok ex z fresh_world_miss all_returned_notebook
      registry_reset_after_conversion[of fresh_world "[''models'', ''x.xml'']" stub_converter
        CondStageModel "''dummy''" PyNone notebook_requests]
      registry_reset_after_conversion[of x_world "[''models'', ''x.xml'']" stub_converter
        Embedder "''other''" "PyList [PyInt 1]" "[]"]
    by simp
qed

text \<open>
  C8 (fallback on launch failure, as the code has it). When the first launch raises
  \<open>x\<close>: if \<open>x\<close> is an instance of \<^verbatim>\<open>Exception\<close>, it is caught, exactly one further launch
  is made, with \<^verbatim>\<open>share=True\<close>, and its outcome is the outcome of the whole; if \<open>x\<close> is
  not an instance of \<^verbatim>\<open>Exception\<close> (\<^verbatim>\<open>KeyboardInterrupt\<close>, \<^verbatim>\<open>SystemExit\<close>,
  \<^verbatim>\<open>GeneratorExit\<close>), it propagates and no further launch is made.
\<close>

theorem launch_fallback:
  assumes "srv launches \<lparr>debug = True, share = None\<rparr> = Some x"
  shows "launch_demo srv launches =
     (if isinstance_Exception x
      then (srv (launches @ [\<lparr>debug = True, share = None\<rparr>]) \<lparr>debug = True, share = Some True\<rparr>,
            launches @ [\<lparr>debug = True, share = None\<rparr>, \<lparr>debug = True, share = Some True\<rparr>])
      else (Some x, launches @ [\<lparr>debug = True, share = None\<rparr>]))"
  using assms by (simp add: launch_demo_def launch_def)

theorem launch_fallback_witness:
  "busy_port_server [] \<lparr>debug = True, share = None\<rparr> = Some (ExceptionInstance ''OSError'') \<and>
   launch_demo busy_port_server [] =
     (None, [\<lparr>debug = True, share = None\<rparr>, \<lparr>debug = True, share = Some True\<rparr>])"
proof -
  have h: "busy_port_server [] \<lparr>debug = True, share = None\<rparr> = Some (ExceptionInstance ''OSError'')"
    by (simp add: busy_port_server_def)
  show ?thesis
    using h launch_fallback[where srv = busy_port_server and launches = "[]", OF h]
    by (simp add: busy_port_server_def)
qed

text \<open>A first launch interrupted from the keyboard: the exception leaves the cell and
  only that one launch was made.\<close>

theorem launch_fallback_counterexample:
  "interrupted_server [] \<lparr>debug = True, share = None\<rparr> = Some KeyboardInterrupt \<and>
   launch_demo interrupted_server [] = (Some KeyboardInterrupt, [\<lparr>debug = True, share = None\<rparr>])"
  by (simp add: launch_demo_def launch_def interrupted_server_def)

text \<open>
  C9 (trigger scoping). A push or pull request triggers the workflow exactly when its
  branch is \<^verbatim>\<open>main\<close> or \<^verbatim>\<open>latest\<close> and at least one changed file is under one of the
  declared path filters: anything below \<^verbatim>\<open>notebooks/\<close> ending in \<^verbatim>\<open>.ipynb\<close> or \<^verbatim>\<open>.py\<close>,
  \<^verbatim>\<open>requirements.txt\<close>, a file directly in \<^verbatim>\<open>.ci/\<close>, a \<^verbatim>\<open>.yml\<close> file directly in
  \<^verbatim>\<open>.github/workflows/\<close>, or \<^verbatim>\<open>.github/workflows/.env\<close>. So a change limited to files
  outside the filters does not trigger it, and a change to a notebook below
  \<^verbatim>\<open>notebooks/\<close> does.
\<close>

theorem treon_trigger_scope:
  assumes "event_name ev = Push \<or> event_name ev = PullRequest"
  shows "triggered treon ev \<longleftrightarrow>
     (event_ref ev = Branch ''main'' \<or> event_ref ev = Branch ''latest'') \<and>
     (\<exists>f \<in> set (changed_files ev).
        (\<exists>s. f = ''notebooks/'' @ s @ ''.ipynb'') \<or>
        (\<exists>s. f = ''notebooks/'' @ s @ ''.py'') \<or>
        f = ''requirements.txt'' \<or>
        (\<exists>s. f = ''.ci/'' @ s \<and> CHR ''/'' \<notin> set s) \<or>
        (\<exists>s. f = ''.github/workflows/'' @ s @ ''.yml'' \<and> CHR ''/'' \<notin> set s) \<or>
        f = ''.github/workflows/.env'')"
proof -
  have "triggered treon ev \<longleftrightarrow>
      filter_accepts
        \<lparr>branches = [''main'', ''latest''],
         paths = [''notebooks/**.ipynb'', ''notebooks/**.py'', ''requirements.txt'', ''.ci/*'',
                  ''.github/workflows/*.yml'', ''.github/workflows/.env'']\<rparr> ev"
    using assms by (auto simp: triggered_def treon_def)
  also have "\<dots> \<longleftrightarrow>
     (event_ref ev = Branch ''main'' \<or> event_ref ev = Branch ''latest'') \<and>
     (\<exists>f \<in> set (changed_files ev).
        (\<exists>s. f = ''notebooks/'' @ s @ ''.ipynb'') \<or>
        (\<exists>s. f = ''notebooks/'' @ s @ ''.py'') \<or>
        f = ''requirements.txt'' \<or>
        (\<exists>s. f = ''.ci/'' @ s \<and> CHR ''/'' \<notin> set s) \<or>
        (\<exists>s. f = ''.github/workflows/'' @ s @ ''.yml'' \<and> CHR ''/'' \<notin> set s) \<or>
        f = ''.github/workflows/.env'')"
    unfolding filter_accepts_def list_ex_iff
    by (cases "event_ref ev") (simp_all only: matches_treon event_filter.simps git_ref.simps
        list.set bex_simps insert_iff empty_iff simp_thms)
  finally show ?thesis .
qed

theorem treon_trigger_scope_witness:
  "event_name notebook_push = Push \<and> triggered treon notebook_push \<and>
   event_name readme_push = Push \<and> \<not> triggered treon readme_push"
proof -
  have p1: "event_name notebook_push = Push \<or> event_name notebook_push = PullRequest"
    and p2: "event_name readme_push = Push \<or> event_name readme_push = PullRequest"
    by (simp_all add: notebook_push_def readme_push_def)
  have "\<exists>s. ''notebooks/dynamicrafter-animating-images/dynamicrafter-animating-images.ipynb''
       = ''notebooks/'' @ s @ ''.ipynb''"
    by (rule exI[of _ "''dynamicrafter-animating-images/dynamicrafter-animating-images''"]) simp
  then have "triggered treon notebook_push"
    using treon_trigger_scope[OF p1] by (simp add: notebook_push_def)
  moreover have "\<not> triggered treon readme_push"
    using treon_trigger_scope[OF p2] by (simp add: readme_push_def)
  ultimately show ?thesis
    by (simp add: notebook_push_def readme_push_def)
qed

text \<open>
  C10 (truthiness of the shape override). A falsy \<^verbatim>\<open>input_shape\<close> makes \<open>convert\<close>
  behave exactly as \<^verbatim>\<open>None\<close> does; on a cache miss that reaches the converter, the
  \<^verbatim>\<open>input\<close> argument of the one new invocation is the shape when it is truthy and
  absent otherwise. \<^verbatim>\<open>None\<close>, the empty list, the empty tuple and \<^verbatim>\<open>0\<close> are falsy.
\<close>

theorem falsy_shape_is_no_override:
  "(\<not> truthy s \<longrightarrow> convert cm m p e s w = convert cm m p e PyNone w) \<and>
   (\<not> path_exists (files w) p \<and> fst (mkdir (files w) (parent p) True True) = None
      \<longrightarrow> map call_input (convert_model_calls (snd (convert cm m p e s w))) =
           map call_input (convert_model_calls w) @ [if truthy s then Some s else None]) \<and>
   \<not> truthy PyNone \<and> \<not> truthy (PyList []) \<and> \<not> truthy (PyTuple []) \<and> \<not> truthy (PyInt 0)"
proof (intro conjI impI)
  assume "\<not> truthy s"
  then show "convert cm m p e s w = convert cm m p e PyNone w"
    by (simp add: convert_def split: prod.splits option.splits)
next
  assume a: "\<not> path_exists (files w) p \<and> fst (mkdir (files w) (parent p) True True) = None"
  show "map call_input (convert_model_calls (snd (convert cm m p e s w))) =
           map call_input (convert_model_calls w) @ [if truthy s then Some s else None]"
  proof (cases rule: convert_cases[of w p cm m e s])
    case hit
    with a show ?thesis by simp
  next
    case (mkdir_failed er fs1)
    with a show ?thesis by simp
  next
    case (raised fs1 x j)
    then show ?thesis by simp
  next
    case (save_failed fs1 ir j se)
    then show ?thesis by simp
  next
    case (converted fs1 ir j)
    then show ?thesis by simp
  qed
qed simp_all

theorem falsy_shape_is_no_override_witness:
  "\<not> truthy (PyList []) \<and>
   convert stub_converter Embedder [''models'', ''x.xml''] ''dummy'' (PyList []) fresh_world
     = convert stub_converter Embedder [''models'', ''x.xml''] ''dummy'' PyNone fresh_world \<and>
   \<not> path_exists (files fresh_world) [''models'', ''x.xml''] \<and>
   fst (mkdir (files fresh_world) (parent [''models'', ''x.xml'']) True True) = None \<and>
   map call_input (convert_model_calls (snd (convert stub_converter Embedder
       [''models'', ''x.xml''] ''dummy'' (PyList [PyInt 1, PyInt 3, PyInt (- 1), PyInt (- 1)])
       fresh_world)))
     = [Some (PyList [PyInt 1, PyInt 3, PyInt (- 1), PyInt (- 1)])] \<and>
   map call_input (convert_model_calls (snd (convert stub_converter Embedder
       [''models'', ''x.xml''] ''dummy'' (PyInt 0) fresh_world))) = [None]"
proof -
  have mk: "fst (mkdir (files fresh_world) (parent [''models'', ''x.xml'']) True True) = None"
    by (simp add: fresh_world_mkdir)
  have no_calls: "convert_model_calls fresh_world = []"
    by (simp add: fresh_world_def)
  have a: "convert stub_converter Embedder [''models'', ''x.xml''] ''dummy'' (PyList []) fresh_world
     = convert stub_converter Embedder [''models'', ''x.xml''] ''dummy'' PyNone fresh_world"
    using falsy_shape_is_no_override[of "PyList []" stub_converter Embedder
        "[''models'', ''x.xml'']" "''dummy''" fresh_world]
    by simp
  have b: "map call_input (convert_model_calls (snd (convert stub_converter Embedder
       [''models'', ''x.xml''] ''dummy'' (PyList [PyInt 1, PyInt 3, PyInt (- 1), PyInt (- 1)])
       fresh_world)))
     = [Some (PyList [PyInt 1, PyInt 3, PyInt (- 1), PyInt (- 1)])]"
    using mk fresh_world_miss no_calls
      falsy_shape_is_no_override[of "PyList [PyInt 1, PyInt 3, PyInt (- 1), PyInt (- 1)]"
        stub_converter Embedder "[''models'', ''x.xml'']" "''dummy''" fresh_world,
        THEN conjunct2, THEN conjunct1]
    by simp
  have c: "map call_input (convert_model_calls (snd (convert stub_converter Embedder
       [''models'', ''x.xml''] ''dummy'' (PyInt 0) fresh_world))) = [None]"
    using mk fresh_world_miss no_calls
      falsy_shape_is_no_override[of "PyInt 0" stub_converter Embedder "[''models'', ''x.xml'']"
        "''dummy''" fresh_world, THEN conjunct2, THEN conjunct1]
    by simp
  show ?thesis
    using a b c mk fresh_world_miss by simp
qed

end
